theory Spec2Isabelle
  imports Complex_Main
begin

section \<open>Data model (types.ts)\<close>


text \<open>The enum \<^verbatim>\<open>ProcessingState\<close> with its seven members.\<close>

datatype ProcessingState =
  IDLE | UPLOADING | RENDERING_PDF | PERFORMING_OCR | ANALYZING | COMPLETE | ERROR

subsection \<open>JavaScript numbers\<close>

text \<open>
  A finite double is modelled by the rational it denotes. \<open>fl64\<close> rounds a rational to
  the nearest binary64 value, ties to even, with the fixed spacing \<open>2^-1074\<close> in the
  subnormal range; it is what one IEEE 754 multiplication or division does to the exact
  result. Overflow to \<^verbatim>\<open>Infinity\<close> is not modelled: the operands here are string
  lengths and differences of millisecond clock readings, far below \<open>2^1024\<close>.
\<close>

function ilog2 :: "rat \<Rightarrow> nat" where
  "ilog2 x = (if x < 2 then 0 else Suc (ilog2 (x / 2)))"
  by pat_completeness auto
termination
proof (relation "measure (\<lambda>x. nat \<lfloor>x\<rfloor>)")
  show "wf (measure (\<lambda>x::rat. nat \<lfloor>x\<rfloor>))" by simp
next
  fix x :: rat
  assume "\<not> x < 2"
  then have half: "x / 2 \<le> x - 1" and two: "2 \<le> \<lfloor>x\<rfloor>" by (simp_all add: le_floor_iff)
  from half have "\<lfloor>x / 2\<rfloor> \<le> \<lfloor>x - 1\<rfloor>" by (rule floor_mono)
  also have "\<lfloor>x - 1\<rfloor> = \<lfloor>x\<rfloor> - 1" by simp
  finally have "nat \<lfloor>x / 2\<rfloor> < nat \<lfloor>x\<rfloor>" using two by linarith
  then show "(x / 2, x) \<in> measure (\<lambda>x. nat \<lfloor>x\<rfloor>)" by simp
qed

declare ilog2.simps [simp del]

definition pow2 :: "int \<Rightarrow> rat" where
  "pow2 e = (if 0 \<le> e then 2 ^ nat e else 1 / 2 ^ nat (- e))"

definition expo :: "rat \<Rightarrow> int" where
  \<comment> \<open>the binary exponent of a positive rational: \<open>pow2 (expo x) \<le> x < pow2 (expo x + 1)\<close>\<close>
  "expo x = (if 1 \<le> x then int (ilog2 x)
     else (let k = ilog2 (1 / x) in if x * 2 ^ k = 1 then - int k else - int k - 1))"

definition round_even :: "rat \<Rightarrow> int" where
  "round_even x = (let f = \<lfloor>x\<rfloor>; d = x - of_int f in
     if d < 1 / 2 then f else if 1 / 2 < d then f + 1 else if even f then f else f + 1)"

definition fl64 :: "rat \<Rightarrow> rat" where
  "fl64 x = (if x = 0 then 0 else
     let a = \<bar>x\<bar>; e = max (expo a) (- 1022); ulp = pow2 (e - 52)
     in sgn x * of_int (round_even (a / ulp)) * ulp)"

text \<open>
  \<^verbatim>\<open>Math.max\<close> starts from \<^verbatim>\<open>-Infinity\<close> (its value on no arguments), so the numbers
  of the dashboard are finite doubles or \<^verbatim>\<open>-Infinity\<close>.
\<close>

datatype js_number = NegInfinity | Number rat

fun js_max :: "js_number \<Rightarrow> js_number \<Rightarrow> js_number" where
  "js_max NegInfinity y = y"
| "js_max x NegInfinity = x"
| "js_max (Number a) (Number b) = Number (max a b)"

definition Math_max :: "js_number list \<Rightarrow> js_number" where
  "Math_max args = foldl js_max NegInfinity args"

fun js_times :: "js_number \<Rightarrow> rat \<Rightarrow> js_number" where
  \<comment> \<open>\<^verbatim>\<open>x * b\<close> for a positive finite double \<open>b\<close>\<close>
  "js_times NegInfinity b = NegInfinity"
| "js_times (Number a) b = Number (fl64 (a * b))"

definition literal_1_2 :: rat where
  \<comment> \<open>the double that the literal \<^verbatim>\<open>1.2\<close> denotes\<close>
  "literal_1_2 = fl64 (12 / 10)"

subsection \<open>Records\<close>

text \<open>
  The entries of the two chart series of \<open>dashboardData\<close>, the part of a browser
  \<^verbatim>\<open>File\<close> that the program reads, and the three interfaces \<^verbatim>\<open>Agent\<close>,
  \<^verbatim>\<open>PageData\<close> and \<^verbatim>\<open>AnalysisResult\<close>. A JavaScript string is a \<open>string\<close> (its
  \<^verbatim>\<open>length\<close> is the length of the list); a page number is a \<open>nat\<close> (the render loop
  counts from 1); the field \<^verbatim>\<open>length\<close> of a radar entry is \<open>length_r\<close>.
\<close>

record LatencyDatum =
  name :: string
  latency :: rat
  provider :: string

record RadarDatum =
  subject :: string
  length_r :: nat
  fullMark :: js_number

record File =
  name :: string
  type :: string

record Agent =
  name :: string
  prompt :: string
  model :: string

record PageData =
  pageNumber :: nat
  imageDataUrl :: string

record AnalysisResult =
  agentName :: string
  "output" :: string
  latency :: rat
  provider :: string
  model :: string

subsection \<open>Component state of App\<close>

record AppState =
  "file" :: "File option"
  pdfPages :: "PageData list"
  selectedPageNumbers :: "nat set"
  ocrText :: string
  selectedAgents :: "Agent list"
  results :: "AnalysisResult list"
  processingState :: ProcessingState
  error :: "string option"

section \<open>External collaborators\<close>

text \<open>
  What the browser, pdf.js and the generative service answer is not decided by the
  program; each is a parameter of the model.

  \<^item> \<open>read_outcome\<close>: what \<^verbatim>\<open>FileReader\<close> does with the file. The set-up inside the
    \<^verbatim>\<open>try\<close> block throws synchronously, or the read ends in an error event (\<^verbatim>\<open>onload\<close>
    never fires), or \<^verbatim>\<open>onload\<close> fires with the bytes.
  \<^item> \<open>getDocument\<close>: \<^verbatim>\<open>pdfjsLib.getDocument(typedArray).promise\<close>; \<open>None\<close> when the
    promise rejects (the bytes are not a parsable document).
  \<^item> \<open>page_outcome\<close>: one pass of the loop body: \<^verbatim>\<open>pdf.getPage(i)\<close> rejects, or
    \<^verbatim>\<open>canvas.getContext('2d')\<close> is null, or \<^verbatim>\<open>page.render(...).promise\<close> rejects, or
    the page is drawn and \<^verbatim>\<open>canvas.toDataURL('image/png')\<close> is the given string.
  \<^item> \<open>thrown\<close>: a thrown JavaScript value, an \<^verbatim>\<open>Error\<close> with its message or anything
    else.
  \<^item> \<open>stream_outcome\<close>: \<^verbatim>\<open>ai.models.generateContentStream\<close> rejects, or it resolves to a
    stream that delivers the texts of its chunks and then ends (\<open>False\<close>) or throws
    (\<open>True\<close>).
\<close>

datatype read_outcome = ReadThrows | ReadFails | ReadLoads "nat list"

datatype page_outcome = GetPageRejects | NoContext | RenderRejects | Rendered string

record PDFDocument =
  numPages :: nat
  getPage :: "nat \<Rightarrow> page_outcome"

datatype thrown = Error string | NonError

datatype stream_outcome = StreamRejects | Stream "string list" bool

record InlineData =
  data :: "string option"
  mimeType :: string

text \<open>
  A request to \<^verbatim>\<open>generateContent\<close> is the model, the prompt text and the image parts; a
  request to \<^verbatim>\<open>generateContentStream\<close> is the model, the user prompt and the system
  instruction. \<open>generateContentStream\<close> also takes the position of the call in its batch,
  so that two calls with equal requests may be answered differently.
\<close>

record GoogleGenAI =
  generateContent :: "string \<times> string \<times> InlineData list \<Rightarrow> string option"
  generateContentStream :: "nat \<Rightarrow> string \<times> string \<times> string \<Rightarrow> stream_outcome"

section \<open>services/geminiService\<close>

fun split_from :: "char \<Rightarrow> string \<Rightarrow> string \<Rightarrow> string list" where
  "split_from sep cur [] = [cur]"
| "split_from sep cur (c # cs) =
     (if c = sep then cur # split_from sep [] cs else split_from sep (cur @ [c]) cs)"

definition split :: "string \<Rightarrow> char \<Rightarrow> string list" where
  \<comment> \<open>\<^verbatim>\<open>s.split(sep)\<close> for a separator of one character\<close>
  "split s sep = split_from sep [] s"

definition base64ToPart :: "string \<Rightarrow> string \<Rightarrow> InlineData" where
  \<comment> \<open>\<^verbatim>\<open>base64.split(',')[1]\<close> is \<^verbatim>\<open>undefined\<close> (\<open>None\<close>) when there is no comma\<close>
  "base64ToPart base64 mt =
     (let parts = split base64 (CHR '','')
      in \<lparr>data = (if 1 < length parts then Some (parts ! 1) else None), mimeType = mt\<rparr>)"

definition ocr_prompt :: string where
  "ocr_prompt =
     ''You are an expert OCR system. Extract all text from the following document pages in the order they are provided. Combine the text into a single, coherent document.''
     @ [CHR 0x0A]
     @ ''  Pages are provided sequentially. Do not add any commentary or formatting beyond the extracted text itself.''"

definition performOcrOnPages :: "GoogleGenAI \<Rightarrow> PageData list \<Rightarrow> thrown + string" where
  "performOcrOnPages ai pages =
     (if length pages = 0 then Inr ''''
      else
        let model = ''gemini-2.5-flash-image'';
            imageParts = map (\<lambda>page. base64ToPart (imageDataUrl page) ''image/png'') pages
        in case generateContent ai (model, ocr_prompt, imageParts) of
             Some text \<Rightarrow> Inr text
           | None \<Rightarrow> Inl (Error ''Failed to perform OCR on the document pages.''))"

definition agent_failed :: "Agent \<Rightarrow> thrown" where
  "agent_failed agent =
     Error (''Agent '' @ [CHR 0x22] @ Agent.name agent @ [CHR 0x22] @ '' failed to execute.'')"

definition runAgent :: "GoogleGenAI \<Rightarrow> nat \<Rightarrow> Agent \<Rightarrow> string \<Rightarrow> string list \<times> thrown option" where
  \<comment> \<open>the chunks the generator yields, then whether it throws (\<open>Some\<close>) or returns\<close>
  "runAgent ai k agent documentText =
     (let model = Agent.model agent;
          systemInstruction = ''You are a meticulous, multilingual document analyst AI. Follow the user's instructions precisely. Be concise but complete. Prioritize correctness and faithfulness to the source document.'';
          userPrompt = prompt agent @ [CHR 0x0A, CHR 0x0A] @ ''--- DOCUMENT CONTENT ---''
                       @ [CHR 0x0A] @ documentText
      in case generateContentStream ai k (model, userPrompt, systemInstruction) of
           StreamRejects \<Rightarrow> ([], Some (agent_failed agent))
         | Stream chunks fails \<Rightarrow> (chunks, if fails then Some (agent_failed agent) else None))"

section \<open>App\<close>

subsection \<open>handleFileChange\<close>

text \<open>
  The loop \<^verbatim>\<open>for (let i = 1; i <= pdf.numPages; i++)\<close> of the \<^verbatim>\<open>onload\<close> callback, with
  its two accumulators. \<open>None\<close>: an awaited promise rejected, so the callback ends there
  without any state update.
\<close>

function render_pages ::
  "PDFDocument \<Rightarrow> nat \<Rightarrow> PageData list \<Rightarrow> nat set \<Rightarrow> (PageData list \<times> nat set) option" where
  "render_pages pdf i pagesData newSelectedPages =
     (if i \<le> numPages pdf then
        (case getPage pdf i of
           GetPageRejects \<Rightarrow> None
         | NoContext \<Rightarrow> render_pages pdf (i + 1) pagesData newSelectedPages
         | RenderRejects \<Rightarrow> None
         | Rendered url \<Rightarrow>
             render_pages pdf (i + 1)
               (pagesData @ [\<lparr>pageNumber = i, imageDataUrl = url\<rparr>])
               (insert i newSelectedPages))
      else Some (pagesData, newSelectedPages))"
  by pat_completeness auto
termination
  by (relation "measure (\<lambda>(pdf, i, pagesData, newSelectedPages). numPages pdf + 1 - i)") auto

declare render_pages.simps [simp del]

definition handleFileChange :: "File option \<Rightarrow> read_outcome \<Rightarrow> AppState \<Rightarrow> AppState" where
  \<comment> \<open>the handler itself: everything it does before it returns\<close>
  "handleFileChange selectedFile rd s =
     (case selectedFile of
        None \<Rightarrow> s\<lparr>error := Some ''Please upload a valid PDF file.''\<rparr>
      | Some f \<Rightarrow>
          if type f = ''application/pdf'' then
            (let s1 = s\<lparr>file := Some f, pdfPages := [], selectedPageNumbers := {},
                        ocrText := '''', results := [], error := None,
                        processingState := RENDERING_PDF\<rparr>
             in if rd = ReadThrows
                then s1\<lparr>error := Some ''Failed to load or render the PDF file.'',
                        processingState := ERROR\<rparr>
                else s1)
          else s\<lparr>error := Some ''Please upload a valid PDF file.''\<rparr>)"

definition onload :: "(nat list \<Rightarrow> PDFDocument option) \<Rightarrow> nat list \<Rightarrow> AppState \<Rightarrow> AppState" where
  \<comment> \<open>the \<^verbatim>\<open>fileReader.onload\<close> callback, applied to the state at the time it runs\<close>
  "onload getDocument typedArray s =
     (case getDocument typedArray of
        None \<Rightarrow> s
      | Some pdf \<Rightarrow>
          (case render_pages pdf 1 [] {} of
             None \<Rightarrow> s
           | Some (pagesData, newSelectedPages) \<Rightarrow>
               s\<lparr>pdfPages := pagesData, selectedPageNumbers := newSelectedPages,
                 processingState := IDLE\<rparr>))"

definition upload ::
  "(nat list \<Rightarrow> PDFDocument option) \<Rightarrow> File option \<Rightarrow> read_outcome \<Rightarrow> AppState \<Rightarrow> AppState" where
  \<comment> \<open>a file-selection event and, when the read loads, the callback after it\<close>
  "upload getDocument selectedFile rd s =
     (let s1 = handleFileChange selectedFile rd s
      in case selectedFile of
           None \<Rightarrow> s1
         | Some f \<Rightarrow>
             if type f = ''application/pdf'' then
               (case rd of ReadLoads typedArray \<Rightarrow> onload getDocument typedArray s1 | _ \<Rightarrow> s1)
             else s1)"

subsection \<open>togglePageSelection, toggleAgentSelection\<close>

definition togglePageSelection :: "nat \<Rightarrow> AppState \<Rightarrow> AppState" where
  "togglePageSelection pn s =
     s\<lparr>selectedPageNumbers :=
         (let newSet = selectedPageNumbers s
          in if pn \<in> newSet then newSet - {pn} else insert pn newSet)\<rparr>"

definition toggleAgentSelection :: "Agent \<Rightarrow> AppState \<Rightarrow> AppState" where
  "toggleAgentSelection agent s =
     s\<lparr>selectedAgents :=
         (let prev = selectedAgents s
          in if list_ex (\<lambda>a. Agent.name a = Agent.name agent) prev
             then filter (\<lambda>a. Agent.name a \<noteq> Agent.name agent) prev
             else prev @ [agent])\<rparr>"

subsection \<open>handleOcr\<close>

text \<open>
  \<open>handleOcr\<close> and \<open>handleRunAnalysis\<close> suspend at one \<^verbatim>\<open>await\<close>. The model runs a
  handler to its end: the setters after the \<^verbatim>\<open>await\<close> are applied to the state the
  handler left before it, with no other event in between. The values they store were
  computed from the state at the start of the handler, as the closure of the handler
  holds them.
\<close>

definition pagesToProcess :: "AppState \<Rightarrow> PageData list" where
  "pagesToProcess s = filter (\<lambda>p. pageNumber p \<in> selectedPageNumbers s) (pdfPages s)"

definition handleOcr_settle :: "thrown + string \<Rightarrow> AppState \<Rightarrow> AppState" where
  \<comment> \<open>after the \<^verbatim>\<open>await\<close>: the two setters of the \<^verbatim>\<open>try\<close> or of the \<^verbatim>\<open>catch\<close>\<close>
  "handleOcr_settle r s =
     (case r of
        Inr text \<Rightarrow> s\<lparr>ocrText := text, processingState := IDLE\<rparr>
      | Inl err \<Rightarrow>
          (let errorMessage = (case err of Error m \<Rightarrow> m
                                | NonError \<Rightarrow> ''An unknown OCR error occurred.'')
           in s\<lparr>error := Some errorMessage, processingState := ERROR\<rparr>))"

definition handleOcr :: "GoogleGenAI \<Rightarrow> AppState \<Rightarrow> AppState \<times> PageData list list" where
  \<comment> \<open>the state when the handler is done, and the argument of every call of
      \<open>performOcrOnPages\<close> it made\<close>
  "handleOcr ai s =
     (if length (pagesToProcess s) = 0
      then (s\<lparr>error := Some ''Please select at least one page for OCR.''\<rparr>, [])
      else
        let s1 = s\<lparr>error := None, processingState := PERFORMING_OCR\<rparr>
        in (handleOcr_settle (performOcrOnPages ai (pagesToProcess s)) s1,
            [pagesToProcess s]))"

subsection \<open>handleRunAnalysis\<close>

text \<open>
  The callback of \<^verbatim>\<open>selectedAgents.map\<close>: \<open>clock k\<close> is the pair of \<^verbatim>\<open>Date.now()\<close>
  readings (milliseconds) at the launch and at the settlement of the \<open>k\<close>-th invocation.
  The callback catches whatever \<open>runAgent\<close> throws, so its promise never rejects.
\<close>

definition analyse ::
  "GoogleGenAI \<Rightarrow> (nat \<Rightarrow> int \<times> int) \<Rightarrow> string \<Rightarrow> nat \<Rightarrow> Agent \<Rightarrow> AnalysisResult" where
  "analyse ai clock text k agent =
     (let (startTime, endTime) = clock k;
          (chunks, thrown) = runAgent ai k agent text;
          fullOutput = foldl (@) '''' chunks
      in case thrown of
           None \<Rightarrow>
             \<lparr>agentName = Agent.name agent, output = fullOutput,
              latency = fl64 (of_int (endTime - startTime) / 1000),
              provider = ''Gemini'', model = Agent.model agent\<rparr>
         | Some err \<Rightarrow>
             \<lparr>agentName = Agent.name agent,
              output = ''Error: '' @ (case err of Error m \<Rightarrow> m | NonError \<Rightarrow> ''Unknown error''),
              latency = fl64 (of_int (endTime - startTime) / 1000),
              provider = ''System'', model = Agent.model agent\<rparr>)"

definition analysisPromises ::
  "GoogleGenAI \<Rightarrow> (nat \<Rightarrow> int \<times> int) \<Rightarrow> AppState \<Rightarrow> AnalysisResult list" where
  "analysisPromises ai clock s =
     map (\<lambda>(k, agent). analyse ai clock (ocrText s) k agent) (enumerate 0 (selectedAgents s))"

text \<open>
  \<^verbatim>\<open>Promise.all\<close> over promises that never reject. \<open>order\<close> lists the indices of the
  promises in the order in which they settle; each settlement stores its value at the
  promise's own index. The combined promise resolves, with the array of values, once
  every slot is filled; \<open>None\<close>: some promise never settles, and neither does it.
\<close>

definition Promise_all :: "nat list \<Rightarrow> 'a list \<Rightarrow> 'a list option" where
  "Promise_all order promises =
     (let slots = fold (\<lambda>i sl. if i < length sl then sl[i := Some (promises ! i)] else sl)
                    order (replicate (length promises) None)
      in if list_all (\<lambda>x. x \<noteq> None) slots then Some (map the slots) else None)"

definition handleRunAnalysis ::
  "GoogleGenAI \<Rightarrow> (nat \<Rightarrow> int \<times> int) \<Rightarrow> nat list \<Rightarrow> AppState \<Rightarrow> AppState" where
  "handleRunAnalysis ai clock order s =
     (if ocrText s = '''' then s\<lparr>error := Some ''Please perform OCR on the document first.''\<rparr>
      else if length (selectedAgents s) = 0
      then s\<lparr>error := Some ''Please select at least one agent to run.''\<rparr>
      else
        let s1 = s\<lparr>error := None, processingState := ANALYZING, results := []\<rparr>
        in case Promise_all order (analysisPromises ai clock s) of
             None \<Rightarrow> s1
           | Some settledResults \<Rightarrow>
               s1\<lparr>results := settledResults, processingState := COMPLETE\<rparr>)"

subsection \<open>dashboardData\<close>

definition latencyData :: "AnalysisResult list \<Rightarrow> LatencyDatum list" where
  "latencyData rs =
     map (\<lambda>r. \<lparr>LatencyDatum.name = agentName r, LatencyDatum.latency = latency r,
               LatencyDatum.provider = provider r\<rparr>) rs"

definition radarData :: "AnalysisResult list \<Rightarrow> RadarDatum list" where
  "radarData rs =
     map (\<lambda>r. \<lparr>subject = agentName r, length_r = length (output r),
               fullMark =
                 js_times
                   (Math_max (map (\<lambda>res. Number (of_nat (length (output res)))) rs @ [Number 1]))
                   literal_1_2\<rparr>) rs"

definition dashboardData :: "AnalysisResult list \<Rightarrow> LatencyDatum list \<times> RadarDatum list" where
  "dashboardData rs = (latencyData rs, radarData rs)"

section \<open>Constants and sample inputs\<close>

text \<open>The initial values of the eight \<^verbatim>\<open>useState\<close> hooks.\<close>

definition initial_state :: AppState where
  "initial_state =
     \<lparr>file = None, pdfPages = [], selectedPageNumbers = {}, ocrText = '''',
      selectedAgents = [], results = [], processingState = IDLE, error = None\<rparr>"

text \<open>Two entries of \<^verbatim>\<open>AGENTS\<close> (constants.ts).\<close>

definition summarizer :: Agent where
  "summarizer =
     \<lparr>Agent.name = ''Document Summarizer'',
      prompt = ''Provide a concise summary of this document, accurately capturing its core arguments and main findings.'',
      model = ''gemini-2.5-flash''\<rparr>"

definition keyword_extractor :: Agent where
  "keyword_extractor =
     \<lparr>Agent.name = ''Keyword Extractor'',
      prompt = ''Extract the most important keywords and technical terms from the document. Present them as a comma-separated list.'',
      model = ''gemini-2.5-flash''\<rparr>"

definition sample_pdf :: File where
  "sample_pdf = \<lparr>File.name = ''report.pdf'', type = ''application/pdf''\<rparr>"

definition sample_txt :: File where
  "sample_txt = \<lparr>File.name = ''notes.txt'', type = ''text/plain''\<rparr>"

definition page_url :: string where
  "page_url = ''data:image/png;base64,iVBORw0KGgo=''"

definition three_pages :: PDFDocument where
  "three_pages = \<lparr>numPages = 3, getPage = (\<lambda>i. Rendered page_url)\<rparr>"

definition rendered_state :: AppState where
  \<comment> \<open>a one-page document rendered, its page selected, nothing extracted yet\<close>
  "rendered_state =
     \<lparr>file = Some sample_pdf,
      pdfPages = [\<lparr>pageNumber = 1, imageDataUrl = page_url\<rparr>],
      selectedPageNumbers = {1}, ocrText = '''', selectedAgents = [], results = [],
      processingState = IDLE, error = None\<rparr>"

definition extracted_state :: AppState where
  \<comment> \<open>text extracted and two agents selected\<close>
  "extracted_state =
     rendered_state\<lparr>ocrText := ''Q1 revenue grew 10%.'',
                    selectedAgents := [summarizer, keyword_extractor]\<rparr>"

definition complete_state :: AppState where
  \<comment> \<open>after an analysis run of the two agents\<close>
  "complete_state =
     extracted_state
       \<lparr>results :=
          [\<lparr>agentName = ''Document Summarizer'', output = ''Revenue grew.'', latency = 2,
            provider = ''Gemini'', model = ''gemini-2.5-flash''\<rparr>,
           \<lparr>agentName = ''Keyword Extractor'', output = ''revenue, Q1'', latency = 3,
            provider = ''Gemini'', model = ''gemini-2.5-flash''\<rparr>],
        processingState := COMPLETE\<rparr>"

definition failing_ai :: GoogleGenAI where
  \<comment> \<open>a service that rejects every request\<close>
  "failing_ai =
     \<lparr>generateContent = (\<lambda>req. None), generateContentStream = (\<lambda>k req. StreamRejects)\<rparr>"

definition working_ai :: GoogleGenAI where
  "working_ai =
     \<lparr>generateContent = (\<lambda>req. Some ''Q1 revenue grew 10%.''),
      generateContentStream = (\<lambda>k req. Stream [''Revenue '', ''grew.''] False)\<rparr>"

definition second_fails_ai :: GoogleGenAI where
  \<comment> \<open>the second call of a batch fails after one chunk, every other call succeeds\<close>
  "second_fails_ai =
     \<lparr>generateContent = (\<lambda>req. Some ''Q1 revenue grew 10%.''),
      generateContentStream =
        (\<lambda>k req. if k = 1 then Stream [''partial''] True
                  else Stream [''Revenue '', ''grew.''] False)\<rparr>"

definition sample_clock :: "nat \<Rightarrow> int \<times> int" where
  "sample_clock k = (1000, 1000 + 750 * (int k + 1))"

definition unparsable :: "nat list \<Rightarrow> PDFDocument option" where
  \<comment> \<open>pdf.js rejecting whatever bytes it is given\<close>
  "unparsable typedArray = None"

definition second_page_fails :: PDFDocument where
  \<comment> \<open>a document of three pages whose second page fails to render\<close>
  "second_page_fails =
     \<lparr>numPages = 3, getPage = (\<lambda>i. if i = 2 then RenderRejects else Rendered page_url)\<rparr>"

definition rendered_url :: "page_outcome \<Rightarrow> string" where
  "rendered_url r = (case r of Rendered url \<Rightarrow> url | _ \<Rightarrow> '''')"

definition result_of_length :: "nat \<Rightarrow> AnalysisResult" where
  \<comment> \<open>a result whose output has the given number of characters\<close>
  "result_of_length n =
     \<lparr>agentName = ''Document Summarizer'', output = replicate n (CHR ''x''), latency = 0,
      provider = ''Gemini'', model = ''gemini-2.5-flash''\<rparr>"

section \<open>Properties\<close>

subsection \<open>Page selection\<close>

text \<open>
  C9. Toggling a page number twice in succession gives the page selection back, and
  one toggle of \<open>p\<close> changes the membership of \<open>p\<close> and of no other page number.
\<close>

theorem togglePageSelection_twice_and_frame:
  "togglePageSelection p (togglePageSelection p s) = s
   \<and> (p \<in> selectedPageNumbers (togglePageSelection p s)) = (p \<notin> selectedPageNumbers s)
   \<and> (\<forall>q. q \<noteq> p \<longrightarrow>
         (q \<in> selectedPageNumbers (togglePageSelection p s)) = (q \<in> selectedPageNumbers s))"
  by (auto simp: togglePageSelection_def Let_def insert_absorb)

theorem togglePageSelection_twice_and_frame_witness:
  "togglePageSelection 2 (togglePageSelection 2 rendered_state) = rendered_state
   \<and> 2 \<in> selectedPageNumbers (togglePageSelection 2 rendered_state)
   \<and> 1 \<in> selectedPageNumbers (togglePageSelection 2 rendered_state)
   \<and> 3 \<notin> selectedPageNumbers (togglePageSelection 2 rendered_state)"
  using togglePageSelection_twice_and_frame [of 2 rendered_state]
  by (simp add: rendered_state_def)

subsection \<open>File selection\<close>

text \<open>
  C10. A file-selection event with no file, or with a file whose type is not
  \<^verbatim>\<open>application/pdf\<close>, sets the error message and changes nothing else: the pages, the
  page selection, the extracted text, the agent selection, the results and the
  processing state are as before, and no callback is pending.
\<close>

theorem handleFileChange_invalid_frame:
  assumes "selectedFile = None \<or> (\<exists>f. selectedFile = Some f \<and> type f \<noteq> ''application/pdf'')"
  shows "handleFileChange selectedFile rd s = s\<lparr>error := Some ''Please upload a valid PDF file.''\<rparr>
    \<and> upload getDocument selectedFile rd s = s\<lparr>error := Some ''Please upload a valid PDF file.''\<rparr>
    \<and> pdfPages (handleFileChange selectedFile rd s) = pdfPages s
    \<and> selectedPageNumbers (handleFileChange selectedFile rd s) = selectedPageNumbers s
    \<and> ocrText (handleFileChange selectedFile rd s) = ocrText s
    \<and> selectedAgents (handleFileChange selectedFile rd s) = selectedAgents s
    \<and> results (handleFileChange selectedFile rd s) = results s
    \<and> processingState (handleFileChange selectedFile rd s) = processingState s"
  using assms by (auto simp: handleFileChange_def upload_def)

theorem handleFileChange_invalid_frame_witness:
  "type sample_txt \<noteq> ''application/pdf''
   \<and> handleFileChange (Some sample_txt) (ReadLoads [104, 105]) complete_state
       = complete_state\<lparr>error := Some ''Please upload a valid PDF file.''\<rparr>
   \<and> processingState (handleFileChange (Some sample_txt) (ReadLoads [104, 105]) complete_state)
       = COMPLETE"
  using handleFileChange_invalid_frame [of "Some sample_txt" "ReadLoads [104, 105]" complete_state]
  by (simp add: sample_txt_def complete_state_def extracted_state_def rendered_state_def)

text \<open>
  C3, as the claim states it, fails: a document selection leaves the agent selection as
  it was. In the state reached after an analysis run of two agents, selecting a new PDF
  keeps both agents selected.
\<close>

theorem handleFileChange_keeps_agents_counterexample:
  "selectedAgents (handleFileChange (Some sample_pdf) (ReadLoads [37, 80, 68, 70]) complete_state)
     = [summarizer, keyword_extractor]
   \<and> selectedAgents (handleFileChange (Some sample_pdf) (ReadLoads [37, 80, 68, 70]) complete_state)
     \<noteq> []"
  by (simp add: handleFileChange_def sample_pdf_def complete_state_def extracted_state_def
      rendered_state_def)

text \<open>
  C3, amended. A selection of a PDF file, in any state, clears the pages, the page
  selection, the extracted text, the results and the error, and sets the processing
  state to \<open>RENDERING_PDF\<close> (when the set-up of the file reader does not throw); the
  agent selection is not cleared.
\<close>

theorem handleFileChange_valid_clears:
  assumes "type f = ''application/pdf''" and "rd \<noteq> ReadThrows"
  shows "handleFileChange (Some f) rd s =
           s\<lparr>file := Some f, pdfPages := [], selectedPageNumbers := {}, ocrText := '''',
             results := [], error := None, processingState := RENDERING_PDF\<rparr>
    \<and> selectedAgents (handleFileChange (Some f) rd s) = selectedAgents s"
  using assms by (simp add: handleFileChange_def)

theorem handleFileChange_valid_clears_witness:
  "type sample_pdf = ''application/pdf'' \<and> ReadLoads [37, 80, 68, 70] \<noteq> ReadThrows
   \<and> pdfPages (handleFileChange (Some sample_pdf) (ReadLoads [37, 80, 68, 70]) complete_state) = []
   \<and> results (handleFileChange (Some sample_pdf) (ReadLoads [37, 80, 68, 70]) complete_state) = []
   \<and> ocrText (handleFileChange (Some sample_pdf) (ReadLoads [37, 80, 68, 70]) complete_state) = ''''
   \<and> processingState (handleFileChange (Some sample_pdf) (ReadLoads [37, 80, 68, 70]) complete_state)
       = RENDERING_PDF"
  using handleFileChange_valid_clears [of sample_pdf "ReadLoads [37, 80, 68, 70]" complete_state]
  by (simp add: sample_pdf_def)

subsection \<open>Text extraction\<close>

lemma pagesToProcess_no_selection:
  "selectedPageNumbers s = {} \<Longrightarrow> pagesToProcess s = []"
  by (simp add: pagesToProcess_def)

lemma performOcrOnPages_throws:
  "performOcrOnPages ai pages = Inl e \<Longrightarrow>
     e = Error ''Failed to perform OCR on the document pages.''"
  by (auto simp: performOcrOnPages_def Let_def split: if_splits option.splits)

text \<open>
  C6. A request for extraction while the page selection is empty makes no call of the
  extraction client, sets the error message "Please select at least one page for OCR."
  and changes nothing else; in particular the processing state stays as it is, so
  \<open>IDLE\<close> stays \<open>IDLE\<close>.
\<close>

theorem handleOcr_empty_selection:
  assumes "selectedPageNumbers s = {}"
  shows "snd (handleOcr ai s) = []
    \<and> fst (handleOcr ai s) = s\<lparr>error := Some ''Please select at least one page for OCR.''\<rparr>
    \<and> error (fst (handleOcr ai s)) = Some ''Please select at least one page for OCR.''
    \<and> processingState (fst (handleOcr ai s)) = processingState s
    \<and> (processingState s = IDLE \<longrightarrow> processingState (fst (handleOcr ai s)) = IDLE)"
  using pagesToProcess_no_selection [OF assms] by (simp add: handleOcr_def)

theorem handleOcr_empty_selection_witness:
  "selectedPageNumbers (togglePageSelection 1 rendered_state) = {}
   \<and> snd (handleOcr working_ai (togglePageSelection 1 rendered_state)) = []
   \<and> processingState (fst (handleOcr working_ai (togglePageSelection 1 rendered_state))) = IDLE
   \<and> error (fst (handleOcr working_ai (togglePageSelection 1 rendered_state)))
       = Some ''Please select at least one page for OCR.''"
proof -
  have sel: "selectedPageNumbers (togglePageSelection 1 rendered_state) = {}"
    by (simp add: togglePageSelection_def rendered_state_def)
  have idle: "processingState (togglePageSelection 1 rendered_state) = IDLE"
    by (simp add: togglePageSelection_def rendered_state_def)
  show ?thesis
    using handleOcr_empty_selection [OF sel, of working_ai] sel idle by simp
qed

text \<open>
  C2, as the claim states it, fails: when the extraction client throws, the handler sets
  the processing state to \<open>ERROR\<close>, not to \<open>IDLE\<close>. Here the service rejects the request
  for the one selected page of a rendered document.
\<close>

theorem handleOcr_failure_counterexample:
  "processingState (fst (handleOcr failing_ai rendered_state)) = ERROR
   \<and> processingState (fst (handleOcr failing_ai rendered_state)) \<noteq> IDLE
   \<and> error (fst (handleOcr failing_ai rendered_state))
       = Some ''Failed to perform OCR on the document pages.''"
  by (simp add: handleOcr_def handleOcr_settle_def performOcrOnPages_def pagesToProcess_def
      failing_ai_def rendered_state_def Let_def)

text \<open>
  C2, amended. When the extraction client throws, its message is set as the error and
  the processing state becomes \<open>ERROR\<close>; the pages, the page selection and everything
  else are kept, and a further request is accepted in that state: if the client then
  answers, the text is stored, the error is cleared and the state is \<open>IDLE\<close>. So the
  user may retry without uploading again.
\<close>

theorem handleOcr_failure_recoverable:
  assumes "pagesToProcess s \<noteq> []"
    and "performOcrOnPages ai (pagesToProcess s) = Inl (Error m)"
  shows "handleOcr ai s = (s\<lparr>error := Some m, processingState := ERROR\<rparr>, [pagesToProcess s])
    \<and> m = ''Failed to perform OCR on the document pages.''
    \<and> pdfPages (fst (handleOcr ai s)) = pdfPages s
    \<and> selectedPageNumbers (fst (handleOcr ai s)) = selectedPageNumbers s
    \<and> (\<forall>ai' text. performOcrOnPages ai' (pagesToProcess s) = Inr text \<longrightarrow>
          handleOcr ai' (fst (handleOcr ai s))
            = (s\<lparr>error := None, ocrText := text, processingState := IDLE\<rparr>, [pagesToProcess s]))"
proof -
  have first: "handleOcr ai s = (s\<lparr>error := Some m, processingState := ERROR\<rparr>, [pagesToProcess s])"
    using assms by (simp add: handleOcr_def handleOcr_settle_def Let_def)
  have same: "pagesToProcess (s\<lparr>error := Some m, processingState := ERROR\<rparr>) = pagesToProcess s"
    by (simp add: pagesToProcess_def)
  have msg: "m = ''Failed to perform OCR on the document pages.''"
    using performOcrOnPages_throws [OF assms(2)] by simp
  have again: "handleOcr ai' (s\<lparr>error := Some m, processingState := ERROR\<rparr>)
        = (s\<lparr>error := None, ocrText := answer, processingState := IDLE\<rparr>, [pagesToProcess s])"
    if "performOcrOnPages ai' (pagesToProcess s) = Inr answer" for ai' answer
    using that assms(1) by (simp add: handleOcr_def handleOcr_settle_def Let_def same)
  show ?thesis
    using first msg again by simp
qed

theorem handleOcr_failure_recoverable_witness:
  "pagesToProcess rendered_state \<noteq> []
   \<and> performOcrOnPages failing_ai (pagesToProcess rendered_state)
       = Inl (Error ''Failed to perform OCR on the document pages.'')
   \<and> fst (handleOcr failing_ai rendered_state)
       = rendered_state\<lparr>error := Some ''Failed to perform OCR on the document pages.'',
                        processingState := ERROR\<rparr>
   \<and> fst (handleOcr working_ai (fst (handleOcr failing_ai rendered_state)))
       = rendered_state\<lparr>error := None, ocrText := ''Q1 revenue grew 10%.'',
                        processingState := IDLE\<rparr>"
proof -
  have pages: "pagesToProcess rendered_state = [\<lparr>pageNumber = 1, imageDataUrl = page_url\<rparr>]"
    by (simp add: pagesToProcess_def rendered_state_def)
  have ne: "pagesToProcess rendered_state \<noteq> []"
    by (simp add: pages)
  have fails: "performOcrOnPages failing_ai (pagesToProcess rendered_state)
                 = Inl (Error ''Failed to perform OCR on the document pages.'')"
    by (simp add: pages performOcrOnPages_def failing_ai_def Let_def)
  have works: "performOcrOnPages working_ai (pagesToProcess rendered_state)
                 = Inr ''Q1 revenue grew 10%.''"
    by (simp add: pages performOcrOnPages_def working_ai_def Let_def)
  note run = handleOcr_failure_recoverable [OF ne fails]
  from run have one: "handleOcr failing_ai rendered_state
        = (rendered_state\<lparr>error := Some ''Failed to perform OCR on the document pages.'',
                          processingState := ERROR\<rparr>, [pagesToProcess rendered_state])"
    by blast
  from run works have two: "handleOcr working_ai (fst (handleOcr failing_ai rendered_state))
        = (rendered_state\<lparr>error := None, ocrText := ''Q1 revenue grew 10%.'',
                          processingState := IDLE\<rparr>, [pagesToProcess rendered_state])"
    by blast
  from two have three: "fst (handleOcr working_ai (fst (handleOcr failing_ai rendered_state)))
        = rendered_state\<lparr>error := None, ocrText := ''Q1 revenue grew 10%.'',
                         processingState := IDLE\<rparr>"
    by simp
  from one have four: "fst (handleOcr failing_ai rendered_state)
        = rendered_state\<lparr>error := Some ''Failed to perform OCR on the document pages.'',
                         processingState := ERROR\<rparr>"
    by simp
  show ?thesis
    using ne fails three four by blast
qed

subsection \<open>Rendering\<close>

lemma render_pages_all_rendered:
  assumes "\<forall>k. i \<le> k \<and> k \<le> numPages pdf \<longrightarrow> (\<exists>url. getPage pdf k = Rendered url)"
  shows "render_pages pdf i pagesData sel =
           Some (pagesData
                   @ map (\<lambda>k. \<lparr>pageNumber = k, imageDataUrl = rendered_url (getPage pdf k)\<rparr>)
                       [i..<numPages pdf + 1],
                 sel \<union> {i..numPages pdf})"
  using assms
proof (induction pdf i pagesData sel rule: render_pages.induct)
  case (1 pdf i pagesData sel)
  show ?case
  proof (cases "i \<le> numPages pdf")
    case False
    then show ?thesis by (subst render_pages.simps) simp
  next
    case True
    with "1.prems" obtain url where url: "getPage pdf i = Rendered url" by blast
    have rest: "\<forall>k. i + 1 \<le> k \<and> k \<le> numPages pdf \<longrightarrow> (\<exists>url. getPage pdf k = Rendered url)"
      using "1.prems" by auto
    have step: "render_pages pdf i pagesData sel =
        render_pages pdf (i + 1) (pagesData @ [\<lparr>pageNumber = i, imageDataUrl = url\<rparr>])
          (insert i sel)"
      using True url by (subst render_pages.simps) simp
    have upt: "[i..<numPages pdf + 1] = i # [i + 1..<numPages pdf + 1]"
      using True by (simp add: upt_conv_Cons)
    have ivl: "{i..numPages pdf} = insert i {i + 1..numPages pdf}"
      using True by auto
    show ?thesis
      unfolding step "1.IH"(2) [OF True url rest] upt ivl
      by (simp add: url rendered_url_def)
  qed
qed

lemma onload_rejected:
  "getDocument typedArray = None \<Longrightarrow> onload getDocument typedArray s = s"
  "getDocument typedArray = Some pdf \<Longrightarrow> render_pages pdf 1 [] {} = None \<Longrightarrow>
     onload getDocument typedArray s = s"
  by (simp_all add: onload_def)

text \<open>
  Whenever the callback completes, the pages it stores are numbered in strictly
  ascending order and the selection is the set of their numbers; a page whose canvas has
  no 2D context is left out of both.
\<close>

lemma render_pages_ascending:
  assumes "render_pages pdf i pagesData sel = Some (pages, sel')"
  shows "\<exists>ks. pages = pagesData
                 @ map (\<lambda>k. \<lparr>pageNumber = k, imageDataUrl = rendered_url (getPage pdf k)\<rparr>) ks
           \<and> sel' = sel \<union> set ks \<and> sorted_wrt (<) ks \<and> set ks \<subseteq> {i..numPages pdf}"
  using assms
proof (induction pdf i pagesData sel rule: render_pages.induct)
  case (1 pdf i pagesData sel)
  show ?case
  proof (cases "i \<le> numPages pdf")
    case False
    with "1.prems" have "pages = pagesData" and "sel' = sel"
      by (subst (asm) render_pages.simps, simp)+
    then show ?thesis
      by (intro exI [of _ "[]"]) simp
  next
    case True
    show ?thesis
    proof (cases "getPage pdf i")
      case GetPageRejects
      with True "1.prems" show ?thesis
        by (subst (asm) render_pages.simps) simp
    next
      case RenderRejects
      with True "1.prems" show ?thesis
        by (subst (asm) render_pages.simps) simp
    next
      case NoContext
      with True "1.prems" have "render_pages pdf (i + 1) pagesData sel = Some (pages, sel')"
        by (subst (asm) render_pages.simps) simp
      from "1.IH"(1) [OF True NoContext this] obtain ks where
        ks: "pages = pagesData
               @ map (\<lambda>k. \<lparr>pageNumber = k, imageDataUrl = rendered_url (getPage pdf k)\<rparr>) ks"
          "sel' = sel \<union> set ks" "sorted_wrt (<) ks" "set ks \<subseteq> {i + 1..numPages pdf}"
        by blast
      from ks(4) have "set ks \<subseteq> {i..numPages pdf}"
        by auto
      with ks(1,2,3) show ?thesis
        by blast
    next
      case (Rendered url)
      with True "1.prems" have "render_pages pdf (i + 1)
          (pagesData @ [\<lparr>pageNumber = i, imageDataUrl = url\<rparr>]) (insert i sel) = Some (pages, sel')"
        by (subst (asm) render_pages.simps) simp
      from "1.IH"(2) [OF True Rendered this] obtain ks where
        ks: "pages = (pagesData @ [\<lparr>pageNumber = i, imageDataUrl = url\<rparr>])
               @ map (\<lambda>k. \<lparr>pageNumber = k, imageDataUrl = rendered_url (getPage pdf k)\<rparr>) ks"
          "sel' = insert i sel \<union> set ks" "sorted_wrt (<) ks" "set ks \<subseteq> {i + 1..numPages pdf}"
        by blast
      have "pages = pagesData
          @ map (\<lambda>k. \<lparr>pageNumber = k, imageDataUrl = rendered_url (getPage pdf k)\<rparr>) (i # ks)"
        using ks(1) Rendered by (simp add: rendered_url_def)
      moreover have "sel' = sel \<union> set (i # ks)"
        using ks(2) by simp
      moreover have "sorted_wrt (<) (i # ks)"
        using ks(3,4) by auto
      moreover have "set (i # ks) \<subseteq> {i..numPages pdf}"
        using ks(4) True by auto
      ultimately show ?thesis
        by blast
    qed
  qed
qed

lemma onload_pages_ascending:
  assumes "processingState s \<noteq> IDLE" and "processingState (onload getDocument typedArray s) = IDLE"
  shows "sorted_wrt (<) (map pageNumber (pdfPages (onload getDocument typedArray s)))
    \<and> selectedPageNumbers (onload getDocument typedArray s)
        = set (map pageNumber (pdfPages (onload getDocument typedArray s)))"
proof -
  from assms obtain pdf pages sel where
    loop: "render_pages pdf 1 [] {} = Some (pages, sel)"
    and run: "onload getDocument typedArray s
      = s\<lparr>pdfPages := pages, selectedPageNumbers := sel, processingState := IDLE\<rparr>"
    by (auto simp: onload_def split: option.splits)
  from render_pages_ascending [OF loop] obtain ks where
    ks: "pages = map (\<lambda>k. \<lparr>pageNumber = k, imageDataUrl = rendered_url (getPage pdf k)\<rparr>) ks"
      "sel = set ks" "sorted_wrt (<) ks"
    by auto
  have "map pageNumber pages = ks"
    unfolding ks(1) by (simp add: comp_def)
  then show ?thesis
    using ks(2,3) by (simp add: run)
qed

text \<open>
  C8. When the document loads and each of its \<open>N\<close> pages is drawn, the callback leaves
  the page selection equal to \<open>{1..N}\<close>, the pages numbered \<open>1, 2, ..., N\<close> in this
  order, and the processing state \<open>IDLE\<close>, whatever the state it is applied to; so does the
  whole upload of a PDF file.
\<close>

theorem onload_all_pages_selected:
  assumes "getDocument typedArray = Some pdf"
    and "\<forall>i. 1 \<le> i \<and> i \<le> numPages pdf \<longrightarrow> (\<exists>url. getPage pdf i = Rendered url)"
  shows "selectedPageNumbers (onload getDocument typedArray s) = {1..numPages pdf}
    \<and> map pageNumber (pdfPages (onload getDocument typedArray s)) = [1..<numPages pdf + 1]
    \<and> length (pdfPages (onload getDocument typedArray s)) = numPages pdf
    \<and> processingState (onload getDocument typedArray s) = IDLE
    \<and> (type f = ''application/pdf'' \<longrightarrow>
         selectedPageNumbers (upload getDocument (Some f) (ReadLoads typedArray) s)
           = {1..numPages pdf}
         \<and> map pageNumber (pdfPages (upload getDocument (Some f) (ReadLoads typedArray) s))
           = [1..<numPages pdf + 1]
         \<and> processingState (upload getDocument (Some f) (ReadLoads typedArray) s) = IDLE)"
proof -
  have loop: "render_pages pdf 1 [] {} =
      Some (map (\<lambda>k. \<lparr>pageNumber = k, imageDataUrl = rendered_url (getPage pdf k)\<rparr>)
              [1..<numPages pdf + 1], {1..numPages pdf})"
    using render_pages_all_rendered [OF assms(2), of "[]" "{}"] by simp
  have run: "onload getDocument typedArray t =
      t\<lparr>pdfPages := map (\<lambda>k. \<lparr>pageNumber = k, imageDataUrl = rendered_url (getPage pdf k)\<rparr>)
                       [1..<numPages pdf + 1],
        selectedPageNumbers := {1..numPages pdf}, processingState := IDLE\<rparr>" for t
    by (simp only: onload_def assms(1) option.case loop prod.case)
  have numbers: "map pageNumber
      (map (\<lambda>k. \<lparr>pageNumber = k, imageDataUrl = rendered_url (getPage pdf k)\<rparr>)
         [1..<numPages pdf + 1]) = [1..<numPages pdf + 1]"
    by (simp add: comp_def)
  have whole: "upload getDocument (Some f) (ReadLoads typedArray) s
      = onload getDocument typedArray (handleFileChange (Some f) (ReadLoads typedArray) s)"
    if "type f = ''application/pdf''"
    using that by (simp add: upload_def Let_def)
  show ?thesis
    using numbers by (auto simp: run whole simp del: map_map)
qed

theorem onload_all_pages_selected_witness:
  "selectedPageNumbers
     (upload (\<lambda>bytes. Some three_pages) (Some sample_pdf) (ReadLoads [37, 80, 68, 70])
        complete_state) = {1, 2, 3}
   \<and> map pageNumber
       (pdfPages (upload (\<lambda>bytes. Some three_pages) (Some sample_pdf)
          (ReadLoads [37, 80, 68, 70]) complete_state)) = [1, 2, 3]
   \<and> processingState
       (upload (\<lambda>bytes. Some three_pages) (Some sample_pdf) (ReadLoads [37, 80, 68, 70])
          complete_state) = IDLE"
proof -
  have doc: "(\<lambda>bytes. Some three_pages) [37, 80, 68, 70 :: nat] = Some three_pages"
    by simp
  have drawn: "\<forall>i. 1 \<le> i \<and> i \<le> numPages three_pages \<longrightarrow>
      (\<exists>url. getPage three_pages i = Rendered url)"
    by (simp add: three_pages_def)
  have pdf: "type sample_pdf = ''application/pdf''"
    by (simp add: sample_pdf_def)
  have n: "numPages three_pages = 3"
    by (simp add: three_pages_def)
  have ivl: "{Suc 0..3} = {Suc 0, 2, 3}"
    by auto
  have upt: "[Suc 0..<4] = [Suc 0, 2, 3]"
    by (simp add: upt_rec)
  show ?thesis
    using onload_all_pages_selected [OF doc drawn, where f = sample_pdf and s = complete_state
        and typedArray = "[37, 80, 68, 70]"] pdf
    by (simp add: n ivl upt)
qed

text \<open>
  C4. The claim is what the \<^verbatim>\<open>catch\<close> block of \<open>handleFileChange\<close> is written for (it
  sets "Failed to load or render the PDF file." and \<open>ERROR\<close>), but the \<^verbatim>\<open>try\<close> block
  only covers the set-up of the file reader: the document is parsed and drawn later, in
  the \<^verbatim>\<open>async\<close> callback, and a rejection there reaches no handler. For a PDF file whose
  bytes pdf.js rejects, and for one whose second page fails to render, the upload ends
  with the processing state \<open>RENDERING_PDF\<close>, no error message and no pages.
\<close>

theorem render_failure_not_reported:
  "upload unparsable (Some sample_pdf) (ReadLoads [104, 105]) initial_state
     = initial_state\<lparr>file := Some sample_pdf, processingState := RENDERING_PDF\<rparr>
   \<and> processingState (upload unparsable (Some sample_pdf) (ReadLoads [104, 105]) initial_state)
       \<noteq> ERROR
   \<and> error (upload unparsable (Some sample_pdf) (ReadLoads [104, 105]) initial_state) = None
   \<and> pdfPages (upload unparsable (Some sample_pdf) (ReadLoads [104, 105]) initial_state) = []
   \<and> upload (\<lambda>bytes. Some second_page_fails) (Some sample_pdf) (ReadLoads [37, 80, 68, 70])
       initial_state
     = initial_state\<lparr>file := Some sample_pdf, processingState := RENDERING_PDF\<rparr>"
proof -
  have start: "handleFileChange (Some sample_pdf) rd initial_state
      = initial_state\<lparr>file := Some sample_pdf, processingState := RENDERING_PDF\<rparr>"
    if "rd \<noteq> ReadThrows" for rd
    using that by (simp add: handleFileChange_def sample_pdf_def initial_state_def)
  have pdf: "type sample_pdf = ''application/pdf''"
    by (simp add: sample_pdf_def)
  have first: "upload unparsable (Some sample_pdf) (ReadLoads [104, 105]) initial_state
      = initial_state\<lparr>file := Some sample_pdf, processingState := RENDERING_PDF\<rparr>"
    by (simp add: upload_def Let_def start onload_rejected(1) unparsable_def pdf)
  have loop: "render_pages second_page_fails 1 [] {} = None"
    by code_simp
  have callback: "onload (\<lambda>bytes. Some second_page_fails) [37, 80, 68, 70] t = t" for t
    by (rule onload_rejected(2) [OF _ loop]) simp
  have second: "upload (\<lambda>bytes. Some second_page_fails) (Some sample_pdf)
        (ReadLoads [37, 80, 68, 70]) initial_state
      = initial_state\<lparr>file := Some sample_pdf, processingState := RENDERING_PDF\<rparr>"
    by (simp add: upload_def Let_def start callback pdf)
  show ?thesis
    unfolding first second by (simp add: initial_state_def)
qed

subsection \<open>Analysis\<close>

lemma settle_slots:
  fixes promises :: "'a list"
  defines "store \<equiv> (\<lambda>i sl. if i < length sl then sl[i := Some (promises ! i)] else sl)"
  shows "length (fold store order sl) = length sl"
    and "j < length sl \<Longrightarrow>
           fold store order sl ! j = (if j \<in> set order then Some (promises ! j) else sl ! j)"
proof -
  show len: "length (fold store order sl) = length sl" for sl
    by (induction order arbitrary: sl) (simp_all add: store_def)
  show "j < length sl \<Longrightarrow>
      fold store order sl ! j = (if j \<in> set order then Some (promises ! j) else sl ! j)"
  proof (induction order arbitrary: sl)
    case Nil
    then show ?case by simp
  next
    case (Cons i order)
    have "length (store i sl) = length sl"
      by (simp add: store_def)
    with Cons.prems have "j < length (store i sl)"
      by simp
    from Cons.IH [OF this] Cons.prems show ?case
      by (auto simp: store_def nth_list_update)
  qed
qed

lemma Promise_all_settled:
  assumes "set order = {..<length promises}"
  shows "Promise_all order promises = Some promises"
proof -
  define slots where
    "slots = fold (\<lambda>i sl. if i < length sl then sl[i := Some (promises ! i)] else sl)
               order (replicate (length promises) None)"
  have len: "length slots = length promises"
    unfolding slots_def by (simp add: settle_slots(1))
  have nth: "slots ! j = Some (promises ! j)" if "j < length promises" for j
    unfolding slots_def using that assms by (simp add: settle_slots(2))
  have full: "list_all (\<lambda>x. x \<noteq> None) slots"
    using len nth by (simp add: list_all_length)
  have vals: "map the slots = promises"
    using len nth by (intro nth_equalityI) simp_all
  show ?thesis
    using full vals by (simp add: Promise_all_def slots_def [symmetric])
qed

lemma Promise_all_pending:
  assumes "j < length promises" and "j \<notin> set order"
  shows "Promise_all order promises = None"
proof -
  define slots where
    "slots = fold (\<lambda>i sl. if i < length sl then sl[i := Some (promises ! i)] else sl)
               order (replicate (length promises) None)"
  have len: "length slots = length promises"
    unfolding slots_def by (simp add: settle_slots(1))
  have "slots ! j = None"
    unfolding slots_def using assms by (simp add: settle_slots(2))
  with len assms(1) have "\<not> list_all (\<lambda>x. x \<noteq> None) slots"
    by (auto simp: list_all_length)
  then show ?thesis
    by (simp add: Promise_all_def slots_def [symmetric])
qed

lemma length_analysisPromises:
  "length (analysisPromises ai clock s) = length (selectedAgents s)"
  by (simp add: analysisPromises_def)

lemma nth_analysisPromises:
  "k < length (selectedAgents s) \<Longrightarrow>
     analysisPromises ai clock s ! k = analyse ai clock (ocrText s) k (selectedAgents s ! k)"
  by (simp add: analysisPromises_def nth_enumerate_eq)

lemma agentName_analyse:
  "agentName (analyse ai clock text k agent) = Agent.name agent"
  by (simp add: analyse_def split: prod.splits option.splits)

lemma foldl_append_concat:
  "foldl (@) acc chunks = acc @ concat chunks"
  by (induction chunks arbitrary: acc) simp_all

lemma analyse_success:
  "runAgent ai k agent text = (chunks, None) \<Longrightarrow>
     analyse ai clock text k agent =
       \<lparr>agentName = Agent.name agent, output = concat chunks,
        latency = fl64 (of_int (snd (clock k) - fst (clock k)) / 1000),
        provider = ''Gemini'', model = Agent.model agent\<rparr>"
  by (simp add: analyse_def foldl_append_concat split: prod.splits)

lemma runAgent_throws:
  "snd (runAgent ai k agent text) \<noteq> None \<Longrightarrow>
     snd (runAgent ai k agent text) = Some (agent_failed agent)"
  by (auto simp: runAgent_def Let_def split: stream_outcome.splits if_splits)

lemma analyse_failure:
  assumes "snd (runAgent ai k agent text) \<noteq> None"
  shows "analyse ai clock text k agent =
       \<lparr>agentName = Agent.name agent,
        output = ''Error: Agent '' @ [CHR 0x22] @ Agent.name agent @ [CHR 0x22]
                 @ '' failed to execute.'',
        latency = fl64 (of_int (snd (clock k) - fst (clock k)) / 1000),
        provider = ''System'', model = Agent.model agent\<rparr>"
  using runAgent_throws [OF assms]
  by (cases "runAgent ai k agent text") (simp add: analyse_def agent_failed_def split: prod.splits)

lemma analyse_depends_on_own_call:
  assumes "\<forall>req. generateContentStream ai' k req = generateContentStream ai k req"
  shows "analyse ai' clock text k agent = analyse ai clock text k agent"
  using assms by (simp add: analyse_def runAgent_def)

lemma handleRunAnalysis_settled:
  assumes "ocrText s \<noteq> ''''" and "selectedAgents s \<noteq> []"
    and "set order = {..<length (selectedAgents s)}"
  shows "handleRunAnalysis ai clock order s =
     s\<lparr>error := None, processingState := COMPLETE, results := analysisPromises ai clock s\<rparr>"
proof -
  have "Promise_all order (analysisPromises ai clock s) = Some (analysisPromises ai clock s)"
    using assms(3) by (intro Promise_all_settled) (simp add: length_analysisPromises)
  then show ?thesis
    using assms(1,2) by (simp add: handleRunAnalysis_def Let_def)
qed

text \<open>
  C1. An analysis run started with extracted text and at least one selected agent,
  all of whose invocations settle, in whatever order and whether they succeed or fail,
  ends with one result for each selected agent, in the order of the selection, and with
  the processing state \<open>COMPLETE\<close>.
\<close>

theorem handleRunAnalysis_one_result_per_agent:
  assumes "ocrText s \<noteq> ''''" and "selectedAgents s \<noteq> []"
    and "set order = {..<length (selectedAgents s)}"
  shows "length (results (handleRunAnalysis ai clock order s)) = length (selectedAgents s)
    \<and> map agentName (results (handleRunAnalysis ai clock order s))
        = map Agent.name (selectedAgents s)
    \<and> (\<forall>k < length (selectedAgents s).
          results (handleRunAnalysis ai clock order s) ! k
            = analyse ai clock (ocrText s) k (selectedAgents s ! k))
    \<and> processingState (handleRunAnalysis ai clock order s) = COMPLETE"
proof -
  have names: "map agentName (analysisPromises ai clock s) = map Agent.name (selectedAgents s)"
    by (intro nth_equalityI)
      (simp_all add: length_analysisPromises nth_analysisPromises agentName_analyse)
  show ?thesis
    unfolding handleRunAnalysis_settled [OF assms]
    by (simp add: names length_analysisPromises nth_analysisPromises)
qed

theorem handleRunAnalysis_one_result_per_agent_witness:
  "ocrText extracted_state \<noteq> '''' \<and> selectedAgents extracted_state \<noteq> []
   \<and> set [1, 0] = {..<length (selectedAgents extracted_state)}
   \<and> map agentName (results (handleRunAnalysis second_fails_ai sample_clock [1, 0] extracted_state))
       = [''Document Summarizer'', ''Keyword Extractor'']
   \<and> processingState (handleRunAnalysis second_fails_ai sample_clock [1, 0] extracted_state)
       = COMPLETE"
proof -
  have extracted: "ocrText extracted_state \<noteq> ''''"
    by (simp add: extracted_state_def)
  have agents: "selectedAgents extracted_state = [summarizer, keyword_extractor]"
    by (simp add: extracted_state_def)
  have ne: "selectedAgents extracted_state \<noteq> []"
    by (simp add: agents)
  have settled: "set [1, 0] = {..<length (selectedAgents extracted_state)}"
    by (auto simp: agents)
  have names: "map Agent.name (selectedAgents extracted_state)
      = [''Document Summarizer'', ''Keyword Extractor'']"
    by (simp add: agents summarizer_def keyword_extractor_def)
  show ?thesis
    using handleRunAnalysis_one_result_per_agent
      [OF extracted ne settled, of second_fails_ai sample_clock]
      extracted ne settled
    by (simp only: names simp_thms)
qed

text \<open>
  C5. When the invocation of one selected agent fails in a run whose invocations all
  settle, the run still ends in \<open>COMPLETE\<close> with one result for each agent. The result
  of the failing agent carries its name, the output "Error: " followed by the message of
  the failure, and the provider \<open>System\<close>; each agent whose invocation succeeds has the
  concatenation of its chunks as output and the provider \<open>Gemini\<close>. The results of the
  other agents do not depend on what the service answers to the failing call.
\<close>

theorem agent_failure_isolated:
  assumes "ocrText s \<noteq> ''''"
    and "set order = {..<length (selectedAgents s)}"
    and "i < length (selectedAgents s)"
    and "snd (runAgent ai i (selectedAgents s ! i) (ocrText s)) \<noteq> None"
  shows "processingState (handleRunAnalysis ai clock order s) = COMPLETE
    \<and> length (results (handleRunAnalysis ai clock order s)) = length (selectedAgents s)
    \<and> agentName (results (handleRunAnalysis ai clock order s) ! i)
        = Agent.name (selectedAgents s ! i)
    \<and> output (results (handleRunAnalysis ai clock order s) ! i)
        = ''Error: Agent '' @ [CHR 0x22] @ Agent.name (selectedAgents s ! i) @ [CHR 0x22]
          @ '' failed to execute.''
    \<and> provider (results (handleRunAnalysis ai clock order s) ! i) = ''System''
    \<and> provider (results (handleRunAnalysis ai clock order s) ! i) \<noteq> ''Gemini''
    \<and> (\<forall>j chunks. j < length (selectedAgents s)
          \<and> runAgent ai j (selectedAgents s ! j) (ocrText s) = (chunks, None) \<longrightarrow>
          agentName (results (handleRunAnalysis ai clock order s) ! j)
            = Agent.name (selectedAgents s ! j)
          \<and> output (results (handleRunAnalysis ai clock order s) ! j) = concat chunks
          \<and> provider (results (handleRunAnalysis ai clock order s) ! j) = ''Gemini'')
    \<and> (\<forall>ai' j. (\<forall>k req. k \<noteq> i \<longrightarrow>
                    generateContentStream ai' k req = generateContentStream ai k req)
          \<and> j < length (selectedAgents s) \<and> j \<noteq> i \<longrightarrow>
          results (handleRunAnalysis ai' clock order s) ! j
            = results (handleRunAnalysis ai clock order s) ! j)"
proof -
  have ne: "selectedAgents s \<noteq> []"
    using assms(3) by auto
  have run: "handleRunAnalysis a clock order s =
      s\<lparr>error := None, processingState := COMPLETE, results := analysisPromises a clock s\<rparr>"
    for a
    by (rule handleRunAnalysis_settled [OF assms(1) ne assms(2)])
  have failed: "analysisPromises ai clock s ! i =
      \<lparr>agentName = Agent.name (selectedAgents s ! i),
       output = ''Error: Agent '' @ [CHR 0x22] @ Agent.name (selectedAgents s ! i) @ [CHR 0x22]
                @ '' failed to execute.'',
       latency = fl64 (of_int (snd (clock i) - fst (clock i)) / 1000),
       provider = ''System'', model = Agent.model (selectedAgents s ! i)\<rparr>"
    by (simp only: nth_analysisPromises [OF assms(3)] analyse_failure [OF assms(4)])
  have others: "agentName (analysisPromises ai clock s ! j) = Agent.name (selectedAgents s ! j)
      \<and> output (analysisPromises ai clock s ! j) = concat chunks
      \<and> provider (analysisPromises ai clock s ! j) = ''Gemini''"
    if "j < length (selectedAgents s)"
      and "runAgent ai j (selectedAgents s ! j) (ocrText s) = (chunks, None)" for j chunks
    by (simp add: nth_analysisPromises [OF that(1)] analyse_success [OF that(2)])
  have isolated: "analysisPromises ai' clock s ! j = analysisPromises ai clock s ! j"
    if "\<forall>k req. k \<noteq> i \<longrightarrow> generateContentStream ai' k req = generateContentStream ai k req"
      and "j < length (selectedAgents s)" and "j \<noteq> i" for ai' j
  proof -
    from that(1,3) have "\<forall>req. generateContentStream ai' j req = generateContentStream ai j req"
      by simp
    then show ?thesis
      by (simp add: nth_analysisPromises [OF that(2)] analyse_depends_on_own_call)
  qed
  have res: "results (handleRunAnalysis a clock order s) = analysisPromises a clock s" for a
    by (simp add: run)
  have c1: "processingState (handleRunAnalysis ai clock order s) = COMPLETE"
    by (simp add: run)
  have c2: "length (results (handleRunAnalysis ai clock order s)) = length (selectedAgents s)"
    by (simp add: res length_analysisPromises)
  have c3: "agentName (results (handleRunAnalysis ai clock order s) ! i)
      = Agent.name (selectedAgents s ! i)"
    by (simp add: res failed)
  have c4: "output (results (handleRunAnalysis ai clock order s) ! i)
      = ''Error: Agent '' @ [CHR 0x22] @ Agent.name (selectedAgents s ! i) @ [CHR 0x22]
        @ '' failed to execute.''"
    by (simp add: res failed)
  have c5: "provider (results (handleRunAnalysis ai clock order s) ! i) = ''System''"
    by (simp add: res failed)
  have c6: "provider (results (handleRunAnalysis ai clock order s) ! i) \<noteq> ''Gemini''"
    by (simp add: c5)
  have c7: "\<forall>j chunks. j < length (selectedAgents s)
        \<and> runAgent ai j (selectedAgents s ! j) (ocrText s) = (chunks, None) \<longrightarrow>
        agentName (results (handleRunAnalysis ai clock order s) ! j)
          = Agent.name (selectedAgents s ! j)
        \<and> output (results (handleRunAnalysis ai clock order s) ! j) = concat chunks
        \<and> provider (results (handleRunAnalysis ai clock order s) ! j) = ''Gemini''"
  proof (intro allI impI, elim conjE)
    fix j chunks
    assume "j < length (selectedAgents s)"
      and "runAgent ai j (selectedAgents s ! j) (ocrText s) = (chunks, None)"
    from others [OF this]
    show "agentName (results (handleRunAnalysis ai clock order s) ! j)
          = Agent.name (selectedAgents s ! j)
        \<and> output (results (handleRunAnalysis ai clock order s) ! j) = concat chunks
        \<and> provider (results (handleRunAnalysis ai clock order s) ! j) = ''Gemini''"
      unfolding res .
  qed
  have c8: "\<forall>ai' j. (\<forall>k req. k \<noteq> i \<longrightarrow>
                  generateContentStream ai' k req = generateContentStream ai k req)
        \<and> j < length (selectedAgents s) \<and> j \<noteq> i \<longrightarrow>
        results (handleRunAnalysis ai' clock order s) ! j
          = results (handleRunAnalysis ai clock order s) ! j"
  proof (intro allI impI, elim conjE)
    fix ai' :: GoogleGenAI and j
    assume "\<forall>k req. k \<noteq> i \<longrightarrow> generateContentStream ai' k req = generateContentStream ai k req"
      and "j < length (selectedAgents s)" and "j \<noteq> i"
    from isolated [OF this]
    show "results (handleRunAnalysis ai' clock order s) ! j
        = results (handleRunAnalysis ai clock order s) ! j"
      unfolding res .
  qed
  show ?thesis
    by (intro conjI) (rule c1 c2 c3 c4 c5 c6 c7 c8)+
qed

theorem agent_failure_isolated_witness:
  "ocrText extracted_state \<noteq> ''''
   \<and> set [1, 0] = {..<length (selectedAgents extracted_state)}
   \<and> snd (runAgent second_fails_ai 1 (selectedAgents extracted_state ! 1)
            (ocrText extracted_state)) \<noteq> None
   \<and> processingState (handleRunAnalysis second_fails_ai sample_clock [1, 0] extracted_state)
       = COMPLETE
   \<and> output (results (handleRunAnalysis second_fails_ai sample_clock [1, 0] extracted_state) ! 1)
       = ''Error: Agent '' @ [CHR 0x22] @ ''Keyword Extractor'' @ [CHR 0x22]
         @ '' failed to execute.''
   \<and> provider (results (handleRunAnalysis second_fails_ai sample_clock [1, 0] extracted_state) ! 1)
       = ''System''
   \<and> output (results (handleRunAnalysis second_fails_ai sample_clock [1, 0] extracted_state) ! 0)
       = ''Revenue grew.''
   \<and> provider (results (handleRunAnalysis second_fails_ai sample_clock [1, 0] extracted_state) ! 0)
       = ''Gemini''"
proof -
  have extracted: "ocrText extracted_state \<noteq> ''''"
    by (simp add: extracted_state_def)
  have agents: "selectedAgents extracted_state = [summarizer, keyword_extractor]"
    by (simp add: extracted_state_def)
  have settled: "set [1, 0] = {..<length (selectedAgents extracted_state)}"
    by (auto simp: agents)
  have index: "1 < length (selectedAgents extracted_state)"
    by (simp add: agents)
  have fails: "snd (runAgent second_fails_ai 1 (selectedAgents extracted_state ! 1)
                 (ocrText extracted_state)) \<noteq> None"
    by (simp add: runAgent_def second_fails_ai_def Let_def)
  have ok: "runAgent second_fails_ai 0 (selectedAgents extracted_state ! 0)
              (ocrText extracted_state) = ([''Revenue '', ''grew.''], None)"
    by (simp add: runAgent_def second_fails_ai_def Let_def)
  have who: "Agent.name (selectedAgents extracted_state ! 1) = ''Keyword Extractor''"
    by (simp add: agents keyword_extractor_def)
  note run = agent_failure_isolated [OF extracted settled index fails, of sample_clock]
  from run have state:
    "processingState (handleRunAnalysis second_fails_ai sample_clock [1, 0] extracted_state)
       = COMPLETE"
    by (elim conjE)
  from run have out1:
    "output (results (handleRunAnalysis second_fails_ai sample_clock [1, 0] extracted_state) ! 1)
       = ''Error: Agent '' @ [CHR 0x22] @ Agent.name (selectedAgents extracted_state ! 1)
         @ [CHR 0x22] @ '' failed to execute.''"
    by (elim conjE)
  from run have prov1:
    "provider (results (handleRunAnalysis second_fails_ai sample_clock [1, 0] extracted_state) ! 1)
       = ''System''"
    by (elim conjE)
  from run have good: "\<forall>j chunks. j < length (selectedAgents extracted_state)
      \<and> runAgent second_fails_ai j (selectedAgents extracted_state ! j) (ocrText extracted_state)
          = (chunks, None) \<longrightarrow>
      agentName (results (handleRunAnalysis second_fails_ai sample_clock [1, 0] extracted_state) ! j)
        = Agent.name (selectedAgents extracted_state ! j)
      \<and> output (results (handleRunAnalysis second_fails_ai sample_clock [1, 0] extracted_state) ! j)
        = concat chunks
      \<and> provider (results (handleRunAnalysis second_fails_ai sample_clock [1, 0] extracted_state) ! j)
        = ''Gemini''"
    by (elim conjE)
  have zero: "0 < length (selectedAgents extracted_state)"
    by (simp add: agents)
  note first = good [THEN spec, THEN spec, THEN mp, OF conjI [OF zero ok]]
  have joined: "concat [''Revenue '', ''grew.''] = ''Revenue grew.''"
    by simp
  from first have out0:
    "output (results (handleRunAnalysis second_fails_ai sample_clock [1, 0] extracted_state) ! 0)
       = ''Revenue grew.''"
    unfolding joined by (elim conjE)
  from first have prov0:
    "provider (results (handleRunAnalysis second_fails_ai sample_clock [1, 0] extracted_state) ! 0)
       = ''Gemini''"
    by (elim conjE)
  show ?thesis
    unfolding who [symmetric]
    by (intro conjI) (rule extracted settled fails state out1 prov1 out0 prov0)+
qed

subsection \<open>Dashboard\<close>

lemma foldl_js_max_Number:
  "foldl js_max (Number (of_nat a)) (map (\<lambda>n. Number (of_nat n)) ys)
     = Number (of_nat (fold max ys a))"
  by (induction ys arbitrary: a) (simp_all add: max.commute flip: of_nat_max)

lemma Math_max_lengths:
  "Math_max (map (\<lambda>n. Number (of_nat n)) lens @ [Number 1])
     = Number (of_nat (Max (insert 1 (set lens))))"
proof -
  have args: "map (\<lambda>n. Number (of_nat n)) lens @ [Number 1]
      = map (\<lambda>n. Number (of_nat n)) (lens @ [1])"
    by simp
  obtain y ys where split: "lens @ [1] = y # ys"
    by (cases "lens @ [1]") auto
  have "Math_max (map (\<lambda>n. Number (of_nat n)) (y # ys)) = Number (of_nat (fold max ys y))"
    by (simp add: Math_max_def foldl_js_max_Number)
  also have "fold max ys y = Max (set (y # ys))"
    by (rule Max.set_eq_fold [symmetric])
  also have "set (y # ys) = insert 1 (set lens)"
    unfolding split [symmetric] by simp
  finally show ?thesis
    unfolding args split .
qed

lemma fullMark_radarData:
  "d \<in> set (radarData rs) \<Longrightarrow>
     fullMark d
       = Number (fl64 (of_nat (Max (insert 1 (set (map (\<lambda>r. length (output r)) rs))))
                        * literal_1_2))"
proof -
  have "map (\<lambda>res. Number (of_nat (length (output res)))) rs
      = map (\<lambda>n. Number (of_nat n)) (map (\<lambda>r. length (output r)) rs)"
    by (simp add: comp_def)
  then have "Math_max (map (\<lambda>res. Number (of_nat (length (output res)))) rs @ [Number 1])
      = Number (of_nat (Max (insert 1 (set (map (\<lambda>r. length (output r)) rs)))))"
    by (simp only: Math_max_lengths)
  then show "d \<in> set (radarData rs) \<Longrightarrow> ?thesis"
    by (auto simp: radarData_def)
qed

text \<open>
  C7. Every entry of the output-length series has the same scale maximum: the double
  product of the largest character count of the results, or 1 if that is larger, with
  the literal 1.2. The entries are those of the results, in order, with the agent name
  and the character count of each.
\<close>

theorem dashboardData_scaleMax:
  "map fullMark (snd (dashboardData rs))
     = replicate (length rs)
         (Number (fl64 (of_nat (Max (insert 1 (set (map (\<lambda>r. length (output r)) rs))))
                          * literal_1_2)))
   \<and> (\<forall>d \<in> set (snd (dashboardData rs)).
         fullMark d
           = Number (fl64 (of_nat (Max (insert 1 (set (map (\<lambda>r. length (output r)) rs))))
                            * literal_1_2)))
   \<and> map subject (snd (dashboardData rs)) = map agentName rs
   \<and> map length_r (snd (dashboardData rs)) = map (\<lambda>r. length (output r)) rs"
proof -
  have every: "\<forall>d \<in> set (radarData rs).
      fullMark d
        = Number (fl64 (of_nat (Max (insert 1 (set (map (\<lambda>r. length (output r)) rs))))
                         * literal_1_2))"
    using fullMark_radarData by blast
  have len: "length (radarData rs) = length rs"
    by (simp add: radarData_def)
  have marks: "map fullMark (radarData rs)
      = replicate (length rs)
          (Number (fl64 (of_nat (Max (insert 1 (set (map (\<lambda>r. length (output r)) rs))))
                           * literal_1_2)))"
    using every len by (intro nth_equalityI) simp_all
  have series: "map subject (radarData rs) = map agentName rs"
    "map length_r (radarData rs) = map (\<lambda>r. length (output r)) rs"
    by (simp_all add: radarData_def comp_def)
  show ?thesis
    using every marks series by (simp add: dashboardData_def)
qed

lemma literal_1_2_value:
  "literal_1_2 = 5404319552844595 / 4503599627370496"
  by code_simp

lemma scale_of_120:
  "fl64 (120 * literal_1_2) = 144"
  by code_simp

lemma scale_of_1:
  "fl64 literal_1_2 = literal_1_2"
  by code_simp

theorem dashboardData_scaleMax_witness:
  "map fullMark (snd (dashboardData (map result_of_length [0, 50, 120])))
     = [Number 144, Number 144, Number 144]
   \<and> map fullMark (snd (dashboardData (map result_of_length [0, 0])))
     = [Number literal_1_2, Number literal_1_2]
   \<and> literal_1_2 = 5404319552844595 / 4503599627370496"
proof -
  have len: "length (output (result_of_length n)) = n" for n
    by (simp add: result_of_length_def)
  have big: "Max (insert 1 (set (map (\<lambda>r. length (output r)) (map result_of_length [0, 50, 120]))))
      = 120"
    by (simp add: len)
  have small: "Max (insert 1 (set (map (\<lambda>r. length (output r)) (map result_of_length [0, 0]))))
      = 1"
    by (simp add: len)
  from dashboardData_scaleMax [of "map result_of_length [0, 50, 120]", THEN conjunct1]
  have one: "map fullMark (snd (dashboardData (map result_of_length [0, 50, 120])))
      = [Number (fl64 (120 * literal_1_2)), Number (fl64 (120 * literal_1_2)),
         Number (fl64 (120 * literal_1_2))]"
    unfolding big by simp
  from dashboardData_scaleMax [of "map result_of_length [0, 0]", THEN conjunct1]
  have two: "map fullMark (snd (dashboardData (map result_of_length [0, 0])))
      = [Number (fl64 literal_1_2), Number (fl64 literal_1_2)]"
    unfolding small by simp
  show ?thesis
    unfolding one two scale_of_120 scale_of_1
    by (simp add: literal_1_2_value)
qed

end
